theory Spec2Isabelle
  imports Complex_Main
begin

section \<open>Values and faults\<close>

text \<open>
  The program computes with IEEE doubles (numpy arrays and Python floats). The model
  computes with the real numbers. Where the source leaves the real numbers the model
  says so with a fault:
  \<^item> \<open>ZeroDivisionError\<close>, \<open>ValueError\<close>, \<open>TypeError\<close>, \<open>IndexError\<close> and
    \<open>UnboundLocalError\<close> are the Python exceptions of the same names;
  \<^item> \<open>NonFinite\<close> is not an exception: numpy divides by zero, takes the root of a
    negative number or the median of nothing with a warning only, and the result is
    \<open>inf\<close> or \<open>nan\<close>. The model stops there, since no real number is that result.
\<close>

datatype fault =
  ZeroDivisionError | ValueError | TypeError | IndexError | UnboundLocalError | NonFinite

section \<open>Autocovariance and integral timescale\<close>

text \<open>
  \<open>np.mean(y)\<close>. On an empty array numpy returns \<open>nan\<close>; every use below is inside a
  loop over the indices of \<open>y\<close>, which is then empty, so the value is never read there.
\<close>

definition np_mean :: "real list \<Rightarrow> real" where
  "np_mean y = sum_list y / real (length y)"

text \<open>
  \<open>C(k, y)\<close>: the loop \<open>for i in range(0, N - k)\<close> accumulates into \<open>C_k\<close>; then
  \<open>C_k *= 1 / (N - 1 - k)\<close>, a division of Python integers, which raises when
  \<open>N - 1 - k = 0\<close>. For \<open>k \<ge> N\<close> the range is empty and the factor is negative.
\<close>

definition C :: "nat \<Rightarrow> real list \<Rightarrow> fault + real" where
  "C k y =
     (let N = length y;
          y_bar = np_mean y;
          C_k = fold (\<lambda>i acc. acc + (y ! i - y_bar) * (y ! (i + k) - y_bar)) [0..<N - k] 0
      in if int N - 1 - int k = 0 then Inl ZeroDivisionError
         else Inr (C_k * (1 / real_of_int (int N - 1 - int k))))"

text \<open>
  The loop of \<open>integral_timescale_discrete\<close>, \<open>for k in range(0, m - 1)\<close>, with the
  running value of \<open>T\<close>. Python evaluates \<open>C(k + 1, y)\<close> before \<open>C(k, y)\<close>.
\<close>

fun timescale_loop :: "real \<Rightarrow> real list \<Rightarrow> nat list \<Rightarrow> real \<Rightarrow> fault + real" where
  "timescale_loop dtau y [] T = Inr T"
| "timescale_loop dtau y (k # ks) T =
     (case C (k + 1) y of
        Inl e \<Rightarrow> Inl e
      | Inr c1 \<Rightarrow>
          (case C k y of
             Inl e \<Rightarrow> Inl e
           | Inr c0 \<Rightarrow> timescale_loop dtau y ks (T + dtau / 2 * (c1 + c0))))"

text \<open>
  \<open>T *= 2 / C(0, y)\<close>. When \<open>C(0, y)\<close> is zero: for an empty \<open>y\<close> it is a Python
  float and the division raises; otherwise it is a numpy double, the quotient is
  \<open>inf\<close> and the product \<open>inf\<close> or \<open>nan\<close>.
\<close>

definition integral_timescale_discrete :: "real \<Rightarrow> real list \<Rightarrow> nat \<Rightarrow> fault + real" where
  "integral_timescale_discrete dtau y m =
     (case timescale_loop dtau y [0..<m - 1] 0 of
        Inl e \<Rightarrow> Inl e
      | Inr T \<Rightarrow>
          (case C 0 y of
             Inl e \<Rightarrow> Inl e
           | Inr c \<Rightarrow>
               if c = 0 then (if y = [] then Inl ZeroDivisionError else Inl NonFinite)
               else Inr (T * (2 / c))))"

section \<open>Effective sample size and the analytic confidence limit\<close>

text \<open>
  \<open>effective_sample_size(N, dt, T) = N * dt / T\<close>. \<open>dt\<close> and \<open>T\<close> are numpy doubles,
  so a zero \<open>T\<close> gives \<open>inf\<close> or \<open>nan\<close>, not an exception.
\<close>

definition effective_sample_size :: "nat \<Rightarrow> real \<Rightarrow> real \<Rightarrow> fault + real" where
  "effective_sample_size N dt T = (if T = 0 then Inl NonFinite else Inr (real N * dt / T))"

text \<open>
  \<open>standard_error_of_estimate(y, y_est)\<close>: \<open>1 / (N - 2)\<close> divides Python integers and
  raises for \<open>N = 2\<close>; arrays of different lengths do not subtract; the power \<open>1/2\<close>
  of a negative double is \<open>nan\<close>.
\<close>

definition standard_error_of_estimate :: "real list \<Rightarrow> real list \<Rightarrow> fault + real" where
  "standard_error_of_estimate y y_est =
     (let N = length y in
      if int N - 2 = 0 then Inl ZeroDivisionError
      else if length y_est \<noteq> N then Inl ValueError
      else
        let v = 1 / real_of_int (int N - 2) * (\<Sum>(a, b)\<leftarrow>zip y y_est. (a - b)\<^sup>2)
        in if v < 0 then Inl NonFinite else Inr (sqrt v))"

definition std_dev_x :: "real list \<Rightarrow> fault + real" where
  "std_dev_x x =
     (let N = length x; x_bar = np_mean x in
      if int N - 1 = 0 then Inl ZeroDivisionError
      else
        let v = 1 / real_of_int (int N - 1) * (\<Sum>a\<leftarrow>x. (a - x_bar)\<^sup>2)
        in if v < 0 then Inl NonFinite else Inr (sqrt v))"

text \<open>
  \<open>conf_limit(s_eta, N_star, s_x)\<close>. The quantile function of Student's t,
  \<open>scipy.stats.t.ppf\<close>, is a parameter \<open>ppf q df\<close>; scipy returns \<open>nan\<close> for
  \<open>df \<le> 0\<close>. All the operands are numpy doubles: a negative \<open>N_star - 1\<close> under the
  power \<open>.5\<close> and a zero denominator give \<open>nan\<close> or \<open>inf\<close>.
\<close>

definition conf_limit :: "(real \<Rightarrow> real \<Rightarrow> real) \<Rightarrow> real \<Rightarrow> real \<Rightarrow> real \<Rightarrow> fault + real" where
  "conf_limit ppf s_eta N_star s_x =
     (let deg_freedom = N_star - 2;
          alpha = 0.05
      in if deg_freedom \<le> 0 \<or> N_star - 1 < 0 then Inl NonFinite
         else if sqrt (N_star - 1) * s_x = 0 then Inl NonFinite
         else Inr ((s_eta * ppf (1 - alpha / 2) deg_freedom) / (sqrt (N_star - 1) * s_x)))"

text \<open>
  One station of \<open>main_te\<close> with \<open>compute_cis\<close> set, from the gap-free series
  \<open>(xx, yy_filled)\<close> on: lines 225 to 253. The least-squares fit is the library's;
  its fitted values \<open>y_estimate\<close> are an argument. The row holds what the station
  reports of this chain: the record length, \<open>N - 2\<close>, the value the source names
  \<open>N_star\<close> and prints as the effective degrees of freedom, and \<open>CI_effective\<close>.
\<close>

datatype te_row = Te_row (record_length: nat) (original_dof: int) (effective_dof: real)
  (ci_effective: real)

definition main_te_station ::
  "(real \<Rightarrow> real \<Rightarrow> real) \<Rightarrow> real \<Rightarrow> nat \<Rightarrow> real list \<Rightarrow> real list \<Rightarrow> real list
     \<Rightarrow> fault + te_row" where
  "main_te_station ppf delta_tau_factor nlag_vals_to_use xx yy_filled y_estimate =
     (let NN = length yy_filled in
      if length xx < 2 then Inl IndexError
      else
        let time_step = xx ! 1 - xx ! 0;
            delta_tau = delta_tau_factor * time_step
        in case integral_timescale_discrete delta_tau yy_filled nlag_vals_to_use of
             Inl e \<Rightarrow> Inl e
           | Inr it \<Rightarrow>
               (case effective_sample_size NN time_step it of
                  Inl e \<Rightarrow> Inl e
                | Inr ESS \<Rightarrow>
                    let N_star = ESS - 2 in
                    (case standard_error_of_estimate yy_filled y_estimate of
                       Inl e \<Rightarrow> Inl e
                     | Inr SEE \<Rightarrow>
                         (case std_dev_x xx of
                            Inl e \<Rightarrow> Inl e
                          | Inr SDX \<Rightarrow>
                              (case conf_limit ppf SEE N_star SDX of
                                 Inl e \<Rightarrow> Inl e
                               | Inr CI_effective \<Rightarrow>
                                   Inr (Te_row NN (int NN - 2) N_star CI_effective))))))"

section \<open>The from-scratch Theil-Sen estimator\<close>

text \<open>
  \<open>np.median\<close>: the middle element of the sorted values, or the mean of the two
  middle ones; \<open>nan\<close> (here \<open>None\<close>) for no values at all.
\<close>

definition np_median :: "real list \<Rightarrow> real option" where
  "np_median xs =
     (let s = sort xs; n = length xs in
      if n = 0 then None
      else if odd n then Some (s ! (n div 2))
      else Some ((s ! (n div 2 - 1) + s ! (n div 2)) / 2))"

text \<open>
  The data matrix is the list of its rows, all of one length: \<open>sz[0]\<close> is the number
  of rows and \<open>sz[1]\<close>, read only when there are at least two rows, the length of a
  row. The type leaves out arrays that are not matrices, which the first test of the
  source also turns away.

  An entry of \<open>CC\<close> is \<open>None\<close> where the source holds \<open>nan\<close> or \<open>inf\<close>: below the
  diagonal, which is never written, and where the two predictors are equal (a division
  by zero). \<open>np.isfinite\<close> keeps the other entries, in row-major order.
\<close>

definition CC_entry :: "real list list \<Rightarrow> nat \<Rightarrow> nat \<Rightarrow> real option" where
  "CC_entry data i j =
     (if j < i then None
      else if data ! i ! 0 - data ! j ! 0 = 0 then None
      else Some ((data ! i ! 1 - data ! j ! 1) / (data ! i ! 0 - data ! j ! 0)))"

definition CC_matrix :: "real list list \<Rightarrow> real option list list" where
  "CC_matrix data =
     map (\<lambda>i. map (\<lambda>j. CC_entry data i j) [0..<length data]) [0..<length data]"

definition finite_entries :: "real option list list \<Rightarrow> real list" where
  "finite_entries CC = List.map_filter id (concat CC)"

type_synonym ts_fit = "real option \<times> real option \<times> real option list list"

text \<open>
  \<open>TheilSen_Cummins(data)\<close> returns what it printed and its value: \<open>None\<close> where the
  source returns nothing, else the slope, the intercept (each \<open>None\<close> for \<open>nan\<close>) and
  the matrix of pairwise slopes. In a matrix of reals every predictor is finite, so
  the mask \<open>kd\<close> keeps every row.
\<close>

definition TheilSen_Cummins :: "real list list \<Rightarrow> string list \<times> ts_fit option" where
  "TheilSen_Cummins data =
     (if length data < 2 then
        ([''Expecting MxD data matrix with at least 2 observations.''], None)
      else if length (hd data) = 2 then
        (let CC = CC_matrix data;
             m = np_median (finite_entries CC);
             bb = (case m of
                     None \<Rightarrow> None
                   | Some slope \<Rightarrow> np_median (map (\<lambda>row. row ! 1 - slope * row ! 0) data))
         in ([], Some (m, bb, CC)))
      else ([], None))"

text \<open>
  The callers write \<open>TheilSen_Cummins(...)[0]\<close>: indexing \<open>None\<close> raises
  \<open>TypeError\<close>. A \<open>nan\<close> slope is no real number.
\<close>

definition TheilSen_Cummins_slope :: "real list list \<Rightarrow> fault + real" where
  "TheilSen_Cummins_slope data =
     (case snd (TheilSen_Cummins data) of
        None \<Rightarrow> Inl TypeError
      | Some (m, bb, CC) \<Rightarrow> (case m of None \<Rightarrow> Inl NonFinite | Some slope \<Rightarrow> Inr slope))"

section \<open>Spectral surrogates\<close>

text \<open>
  \<open>scipy.fft.fft\<close> and \<open>ifft\<close>, by the definition scipy documents: the discrete
  Fourier transform \<open>y[k] = \<Sum>j. x[j] exp(-2\<pi>i jk/n)\<close> and its inverse with the factor
  \<open>1/n\<close>. Both refuse an empty array with \<open>ValueError\<close>.
\<close>

definition fft :: "complex list \<Rightarrow> fault + complex list" where
  "fft x =
     (let n = length x in
      if n = 0 then Inl ValueError
      else Inr (map (\<lambda>k. \<Sum>j\<leftarrow>[0..<n]. x ! j * exp (- (2 * of_real pi * \<i> * of_nat j * of_nat k / of_nat n)))
                  [0..<n]))"

definition ifft :: "complex list \<Rightarrow> fault + complex list" where
  "ifft x =
     (let n = length x in
      if n = 0 then Inl ValueError
      else Inr (map (\<lambda>k. (\<Sum>j\<leftarrow>[0..<n]. x ! j * exp (2 * of_real pi * \<i> * of_nat j * of_nat k / of_nat n))
                          / of_nat n)
                  [0..<n]))"

text \<open>
  \<open>abs(fft(x))\<close> of a real series: the amplitude spectrum. The source computes it of
  the residual (\<open>data_mag\<close>) and of every surrogate (for \<open>mean_spec\<close>).
\<close>

definition abs_fft :: "real list \<Rightarrow> fault + real list" where
  "abs_fft x =
     (case fft (map complex_of_real x) of
        Inl e \<Rightarrow> Inl e
      | Inr spectrum \<Rightarrow> Inr (map cmod spectrum))"

text \<open>
  The surrogate of one trial, from the amplitudes and the numbers \<open>u\<close> that
  \<open>np.random.random_sample(npts)\<close> drew from \<open>[0, 1)\<close>:
  \<open>ph_ang = 2 * np.pi * u\<close>, \<open>dummy_fft = data_mag * np.exp(1j * ph_ang)\<close> and
  \<open>dummy_ts = np.sqrt(2) * np.real(ifft(dummy_fft))\<close>.
\<close>

definition ph_ang :: "real list \<Rightarrow> real list" where
  "ph_ang u = map (\<lambda>r. 2 * pi * r) u"

definition dummy_fft :: "real list \<Rightarrow> real list \<Rightarrow> complex list" where
  "dummy_fft mag ph = map (\<lambda>(a, p). complex_of_real a * exp (\<i> * complex_of_real p)) (zip mag ph)"

definition dummy_ts :: "real list \<Rightarrow> real list \<Rightarrow> fault + real list" where
  "dummy_ts mag ph =
     (case ifft (dummy_fft mag ph) of
        Inl e \<Rightarrow> Inl e
      | Inr z \<Rightarrow> Inr (map (\<lambda>c. sqrt 2 * Re c) z))"

section \<open>The Monte Carlo trend simulator\<close>

text \<open>
  The libraries \<open>monte_carlo_trend\<close> calls are parameters, gathered in a record:
  \<^item> numpy's global generator, of some state type \<open>'g\<close>: \<open>np.random.seed(s)\<close> replaces
    the state by \<open>np_random_seed s\<close>, and \<open>np.random.random_sample(n)\<close> reads the state,
    returns \<open>n\<close> numbers of \<open>[0, 1)\<close> and leaves a new state;
  \<^item> \<open>TheilSenRegressor(fit_intercept=True, random_state=42, n_jobs=...).fit(X, y).coef_\<close>,
    which owns its generator;
  \<^item> the slope \<open>res.params.Date\<close> of the least-squares fit of statsmodels;
  \<^item> \<open>acovf(x, nlag=...)\<close> of statsmodels, which returns \<open>nlag + 1\<close> values.
  Each of the last three may raise.
\<close>

record 'g library =
  np_random_seed :: "nat \<Rightarrow> 'g"
  np_random_random_sample :: "'g \<Rightarrow> nat \<Rightarrow> real list \<times> 'g"
  TheilSenRegressor_coef :: "int option \<Rightarrow> real list \<Rightarrow> real list \<Rightarrow> fault + real list"
  OLS_params_Date :: "real list \<Rightarrow> real list \<Rightarrow> fault + real"
  acovf :: "real list \<Rightarrow> nat \<Rightarrow> fault + real list"

text \<open>
  What a call does: it raises, it returns nothing (a bare \<open>return\<close>, the value
  \<open>None\<close>), or it returns a value.
\<close>

datatype 'a outcome = Raises fault | Returns_None | Returns 'a

text \<open>
  The arrays the loop updates: \<open>siml_trends\<close>, \<open>siml_acvf\<close> (a list of rows) and
  \<open>mean_spec\<close>.
\<close>

datatype mc_arrays = Mc_arrays (trends: "real list") (acvf_rows: "real list list")
  (spec: "real list")

text \<open>
  The branch on \<open>sen_flag\<close> of one trial, which gives the slope to store or ends the
  call. In the first branch the test of the source is \<open>len(res.coef_ == 1)\<close>: the
  comparison is elementwise, and the length of its result is true when it is not zero.
  In the second, \<open>np.array([time, dummy_ts]).T\<close> has a row for every observation; numpy
  refuses two rows of different lengths.
\<close>

definition trial_slope ::
  "'g library \<Rightarrow> int option \<Rightarrow> int \<Rightarrow> real list \<Rightarrow> real list \<Rightarrow> real outcome" where
  "trial_slope L ncores_to_use sen_flag time ts =
     (if sen_flag = 1 then
        (case TheilSenRegressor_coef L ncores_to_use time ts of
           Inl e \<Rightarrow> Raises e
         | Inr coef \<Rightarrow>
             if length (map (\<lambda>c. c = 1) coef) \<noteq> 0 then Returns (coef ! 0)
             else Returns_None)
      else if sen_flag = 2 then
        (if length time \<noteq> length ts then Raises ValueError
         else
           (case TheilSen_Cummins_slope (map (\<lambda>(t, v). [t, v]) (zip time ts)) of
              Inl e \<Rightarrow> Raises e
            | Inr slope \<Rightarrow> Returns slope))
      else
        (case OLS_params_Date L time ts of
           Inl e \<Rightarrow> Raises e
         | Inr slope \<Rightarrow> Returns slope))"

text \<open>
  One pass of the loop body, for the trial \<open>nsim\<close>: the generator is seeded with
  \<open>42 + nsim\<close> (numpy takes seeds below \<open>2^32\<close>), the surrogate is drawn, its power
  spectrum is added to \<open>mean_spec\<close>, the slope is stored at \<open>nsim\<close> and the
  autocovariance in row \<open>nsim\<close>. The state of the generator on entry is \<open>g\<close>.
\<close>

definition trial ::
  "'g library \<Rightarrow> int option \<Rightarrow> int \<Rightarrow> nat \<Rightarrow> real list \<Rightarrow> real list \<Rightarrow> nat \<Rightarrow> nat
     \<Rightarrow> 'g \<times> mc_arrays \<Rightarrow> mc_arrays outcome \<times> 'g" where
  "trial L ncores_to_use sen_flag maxlag time mag npts nsim st =
     (let g = fst st; a = snd st in
      if 2 ^ 32 \<le> 42 + nsim then (Raises ValueError, g)
      else
        let g1 = np_random_seed L (42 + nsim);
            (u, g2) = np_random_random_sample L g1 npts
        in case dummy_ts mag (ph_ang u) of
             Inl e \<Rightarrow> (Raises e, g2)
           | Inr ts \<Rightarrow>
               (case abs_fft ts of
                  Inl e \<Rightarrow> (Raises e, g2)
                | Inr amp \<Rightarrow>
                    let mean_spec = map (\<lambda>(s, w). s + w\<^sup>2 / real npts) (zip (spec a) amp) in
                    (case trial_slope L ncores_to_use sen_flag time ts of
                       Raises e \<Rightarrow> (Raises e, g2)
                     | Returns_None \<Rightarrow> (Returns_None, g2)
                     | Returns slope \<Rightarrow>
                         (case acovf L ts maxlag of
                            Inl e \<Rightarrow> (Raises e, g2)
                          | Inr xc \<Rightarrow>
                              (Returns (Mc_arrays ((trends a)[nsim := slope])
                                          ((acvf_rows a)[nsim := xc]) mean_spec), g2)))))"

text \<open>The loop \<open>for nsim in trange(max_siml)\<close>.\<close>

fun trials ::
  "'g library \<Rightarrow> int option \<Rightarrow> int \<Rightarrow> nat \<Rightarrow> real list \<Rightarrow> real list \<Rightarrow> nat \<Rightarrow> nat list
     \<Rightarrow> 'g \<times> mc_arrays \<Rightarrow> mc_arrays outcome \<times> 'g" where
  "trials L ncores_to_use sen_flag maxlag time mag npts [] st = (Returns (snd st), fst st)"
| "trials L ncores_to_use sen_flag maxlag time mag npts (nsim # rest) st =
     (case trial L ncores_to_use sen_flag maxlag time mag npts nsim st of
        (Returns a, g) \<Rightarrow> trials L ncores_to_use sen_flag maxlag time mag npts rest (g, a)
      | (Raises e, g) \<Rightarrow> (Raises e, g)
      | (Returns_None, g) \<Rightarrow> (Returns_None, g))"

text \<open>
  \<open>np.mean\<close> and \<open>np.std\<close> of all the entries of an array, \<open>nan\<close> (here \<open>None\<close>) when
  it has none.
\<close>

definition np_mean_all :: "real list \<Rightarrow> real option" where
  "np_mean_all v = (if v = [] then None else Some (np_mean v))"

definition np_std_all :: "real list \<Rightarrow> real option" where
  "np_std_all v =
     (if v = [] then None else Some (sqrt (np_mean (map (\<lambda>a. (a - np_mean v)\<^sup>2) v))))"

text \<open>
  The value \<open>monte_carlo_trend\<close> returns: \<open>siml_trends\<close>, \<open>mean_acvf\<close>, \<open>std_acvf\<close> and
  \<open>mean_spec\<close>, the last divided by \<open>max_siml\<close> (entries \<open>nan\<close>, here \<open>None\<close>, when
  \<open>max_siml\<close> is zero).
\<close>

datatype mc_result = Mc_result (res_siml_trends: "real list") (res_mean_acvf: "real option")
  (res_std_acvf: "real option") (res_mean_spec: "real option list")

definition monte_carlo_trend ::
  "'g library \<Rightarrow> 'g \<Rightarrow> nat \<Rightarrow> nat \<Rightarrow> real list \<Rightarrow> real list \<Rightarrow> int option \<Rightarrow> int
     \<Rightarrow> mc_result outcome \<times> 'g" where
  "monte_carlo_trend L g max_siml maxlag time data_record ncores_to_use sen_flag =
     (let npts = length data_record;
          siml_trends0 = replicate max_siml 0;
          siml_acvf0 = replicate max_siml (replicate (maxlag + 1) 0)
      in case abs_fft data_record of
           Inl e \<Rightarrow> (Raises e, g)
         | Inr mag \<Rightarrow>
             (case trials L ncores_to_use sen_flag maxlag time mag npts [0..<max_siml]
                     (g, Mc_arrays siml_trends0 siml_acvf0 (replicate npts 0)) of
                (Raises e, g') \<Rightarrow> (Raises e, g')
              | (Returns_None, g') \<Rightarrow> (Returns_None, g')
              | (Returns a, g') \<Rightarrow>
                  (Returns (Mc_result (trends a)
                              (np_mean_all (concat (acvf_rows a)))
                              (np_std_all (concat (acvf_rows a)))
                              (map (\<lambda>s. if max_siml = 0 then None else Some (s / real max_siml))
                                 (spec a))),
                   g')))"


section \<open>The empirical percentile extractor\<close>

text \<open>
  \<open>np.histogram(a, bins=nbins)\<close> with equal bins, as numpy defines it. The range is
  from the least to the greatest value, \<open>(0, 1)\<close> for no values, widened by a half on
  each side when the two are equal. The edges are \<open>np.linspace(first, last, nbins + 1)\<close>.
  A value falls into the bin of index \<open>\<lfloor>(v - first) / (last - first) * nbins\<rfloor>\<close>, and
  the greatest value, whose index would be \<open>nbins\<close>, into the last bin.
\<close>

definition histogram_range :: "real list \<Rightarrow> real \<times> real" where
  "histogram_range a =
     (if a = [] then (0, 1)
      else
        let first_edge = Min (set a); last_edge = Max (set a) in
        if first_edge = last_edge then (first_edge - 0.5, last_edge + 0.5)
        else (first_edge, last_edge))"

definition linspace :: "real \<Rightarrow> real \<Rightarrow> nat \<Rightarrow> real list" where
  "linspace start stop num =
     map (\<lambda>i. start + real i * ((stop - start) / real (num - 1))) [0..<num]"

definition bin_index :: "real \<Rightarrow> real \<Rightarrow> nat \<Rightarrow> real \<Rightarrow> nat" where
  "bin_index first_edge last_edge nbins v =
     (let f = nat \<lfloor>(v - first_edge) / (last_edge - first_edge) * real nbins\<rfloor>
      in if f = nbins then f - 1 else f)"

definition np_histogram :: "real list \<Rightarrow> nat \<Rightarrow> nat list \<times> real list" where
  "np_histogram a nbins =
     (let (first_edge, last_edge) = histogram_range a
      in (map (\<lambda>j. length (filter (\<lambda>v. bin_index first_edge last_edge nbins v = j) a)) [0..<nbins],
          linspace first_edge last_edge (nbins + 1)))"

text \<open>
  The array \<open>N\<close> of \<open>calc_trend\<close>: \<open>N[k] = sum(count[:k] / N_input)\<close> with
  \<open>N_input = sum(count)\<close>. When \<open>N_input\<close> is zero the quotients are \<open>nan\<close>, and so is
  every \<open>N[k]\<close> but the first, the sum of nothing: \<open>None\<close> stands for \<open>nan\<close>.
\<close>

definition cdf_N :: "nat list \<Rightarrow> nat \<Rightarrow> real option list" where
  "cdf_N count nbins =
     (let N_input = sum_list count in
      map (\<lambda>k. if N_input = 0 \<and> 0 < k then None
               else Some (\<Sum>c\<leftarrow>take k count. real c / real N_input))
        [0..<nbins])"

text \<open>
  The two tests of the scan, \<open>N[n] < alim_low <= N[n + 1]\<close> and
  \<open>N[n] <= alim_high < N[n + 1]\<close>; a comparison with \<open>nan\<close> is false.
\<close>

definition alim_low :: real where
  "alim_low = 0.025"

definition alim_high :: real where
  "alim_high = 0.975"

definition straddles_low :: "real option list \<Rightarrow> nat \<Rightarrow> bool" where
  "straddles_low N n =
     (case (N ! n, N ! (n + 1)) of
        (Some a, Some b) \<Rightarrow> a < alim_low \<and> alim_low \<le> b
      | _ \<Rightarrow> False)"

definition straddles_high :: "real option list \<Rightarrow> nat \<Rightarrow> bool" where
  "straddles_high N n =
     (case (N ! n, N ! (n + 1)) of
        (Some a, Some b) \<Rightarrow> a \<le> alim_high \<and> alim_high < b
      | _ \<Rightarrow> False)"

text \<open>
  The variables \<open>temp_conf_int_low\<close> and \<open>temp_conf_int_high\<close> are locals of
  \<open>calc_trend\<close>, assigned only inside the two tests: a pair of options, \<open>None\<close> for a
  variable that is not bound. The loop \<open>for n in range(nbins - 1)\<close> has no \<open>break\<close>.
\<close>

type_synonym bounds = "real option \<times> real option"

definition scan_step :: "real option list \<Rightarrow> real list \<Rightarrow> nat \<Rightarrow> bounds \<Rightarrow> bounds" where
  "scan_step N bin_edges n b =
     (let low = (if straddles_low N n then Some (0.5 * (bin_edges ! n + bin_edges ! (n + 1)))
                 else fst b);
          high = (if straddles_high N n then Some (0.5 * (bin_edges ! n + bin_edges ! (n + 1)))
                  else snd b)
      in (low, high))"

definition scan :: "real option list \<Rightarrow> real list \<Rightarrow> nat \<Rightarrow> bounds \<Rightarrow> bounds" where
  "scan N bin_edges nbins b = fold (scan_step N bin_edges) [0..<nbins - 1] b"

text \<open>
  \<open>temp_conf_int_95 = 0.5 * (-temp_conf_int_low + temp_conf_int_high)\<close>: reading a
  local that is not bound raises \<open>UnboundLocalError\<close>.
\<close>

definition temp_conf_int_95 :: "bounds \<Rightarrow> fault + real" where
  "temp_conf_int_95 b =
     (case fst b of
        None \<Rightarrow> Inl UnboundLocalError
      | Some low \<Rightarrow>
          (case snd b of
             None \<Rightarrow> Inl UnboundLocalError
           | Some high \<Rightarrow> Inr (0.5 * (- low + high))))"

text \<open>
  Lines 564 to 587 for one station: from the simulated slopes and the bindings of the
  two locals on entry, the half-width (or the fault) and the bindings on exit.
\<close>

definition num_bins :: "nat \<Rightarrow> nat" where
  "num_bins max_siml = (if 500 \<le> max_siml then 100 else 5)"

definition station_conf_int :: "nat \<Rightarrow> real list \<Rightarrow> bounds \<Rightarrow> (fault + real) \<times> bounds" where
  "station_conf_int max_siml siml_trends b =
     (let nbins = num_bins max_siml;
          (count, bin_edges) = np_histogram siml_trends nbins;
          N = cdf_N count nbins;
          b' = scan N bin_edges nbins b
      in (temp_conf_int_95 b', b'))"



text \<open>
  Names for one station's counts, bin edges and array \<open>N\<close>, as \<open>station_conf_int\<close>
  computes them.
\<close>

definition station_count :: "nat \<Rightarrow> real list \<Rightarrow> nat list" where
  "station_count max_siml siml_trends = fst (np_histogram siml_trends (num_bins max_siml))"

definition station_edges :: "nat \<Rightarrow> real list \<Rightarrow> real list" where
  "station_edges max_siml siml_trends = snd (np_histogram siml_trends (num_bins max_siml))"

definition station_N :: "nat \<Rightarrow> real list \<Rightarrow> real option list" where
  "station_N max_siml siml_trends =
     cdf_N (station_count max_siml siml_trends) (num_bins max_siml)"

text \<open>
  A sample of 41 simulated slopes for examples: one at 0, twenty at 0.3, nineteen at
  0.7 and one at 1.
\<close>

definition spread_sample :: "real list" where
  "spread_sample = [0] @ replicate 20 (3 / 10) @ replicate 19 (7 / 10) @ [1]"


section \<open>Properties of the autocovariance\<close>

lemma fold_add_sum_list:
  "fold (\<lambda>i acc. acc + f i) ks (a :: real) = a + sum_list (map f ks)"
  by (induction ks arbitrary: a) simp_all

lemma C_unfold:
  "C k y =
     (if int (length y) - 1 - int k = 0 then Inl ZeroDivisionError
      else Inr ((\<Sum>i\<leftarrow>[0..<length y - k]. (y ! i - np_mean y) * (y ! (i + k) - np_mean y))
                 * (1 / real_of_int (int (length y) - 1 - int k))))"
  unfolding C_def Let_def fold_add_sum_list by simp

lemma sum_list_upt_nth:
  "(\<Sum>i\<leftarrow>[0..<length y]. f (y ! i)) = sum_list (map f (y :: real list))"
proof -
  have "map (\<lambda>i. f (y ! i)) [0..<length y] = map f (map ((!) y) [0..<length y])"
    by (simp only: map_map comp_def)
  then show ?thesis by (simp only: map_nth)
qed

lemma C_zero_sum_squares:
  assumes "2 \<le> length y"
  shows "C 0 y = Inr ((\<Sum>v\<leftarrow>y. (v - np_mean y)\<^sup>2) / (real (length y) - 1))"
proof -
  have ne: "int (length y) - 1 - int 0 \<noteq> 0"
    using assms by simp
  have cast: "real_of_int (int (length y) - 1 - int 0) = real (length y) - 1"
    by simp
  have "(\<Sum>i\<leftarrow>[0..<length y]. (y ! i - np_mean y) * (y ! i - np_mean y))
        = (\<Sum>v\<leftarrow>y. (v - np_mean y) * (v - np_mean y))"
    by (rule sum_list_upt_nth)
  then have "(\<Sum>i\<leftarrow>[0..<length y - 0]. (y ! i - np_mean y) * (y ! (i + 0) - np_mean y))
        = (\<Sum>v\<leftarrow>y. (v - np_mean y)\<^sup>2)"
    by (simp add: power2_eq_square)
  then show ?thesis
    unfolding C_unfold [of 0 y] using ne cast by simp
qed

text \<open>
  C7. For a series of length at least 2, the autocovariance at lag zero is the sum of
  the squared deviations from the mean, divided by \<open>N - 1\<close>.
\<close>

theorem C_lag_zero_is_sample_variance:
  assumes "2 \<le> length y"
  shows "C 0 y = Inr ((\<Sum>v\<leftarrow>y. (v - np_mean y)\<^sup>2) / (real (length y) - 1))"
  using assms by (rule C_zero_sum_squares)

theorem C_lag_zero_is_sample_variance_witness:
  "2 \<le> length [1, 2, 3 :: real] \<and> C 0 [1, 2, 3] = Inr 1"
  using C_lag_zero_is_sample_variance [of "[1, 2, 3]"]
  by (simp add: np_mean_def)

section \<open>Properties of the integral timescale\<close>

lemma np_mean_shift:
  assumes "y \<noteq> []"
  shows "np_mean (map (\<lambda>v. v + c) y) = np_mean y + c"
proof -
  have "sum_list (map (\<lambda>v. v + c) y) = sum_list y + real (length y) * c"
    by (induction y) (simp_all add: algebra_simps)
  moreover have "real (length y) \<noteq> 0"
    using assms by simp
  ultimately show ?thesis
    by (simp add: np_mean_def field_simps)
qed

lemma C_shift: "C k (map (\<lambda>v. v + c) y) = C k y"
proof (cases "y = []")
  case True
  then show ?thesis by simp
next
  case False
  let ?z = "map (\<lambda>v. v + c) y"
  have m: "np_mean ?z = np_mean y + c"
    using False by (rule np_mean_shift)
  have eq: "map (\<lambda>i. (?z ! i - np_mean ?z) * (?z ! (i + k) - np_mean ?z)) [0..<length y - k]
      = map (\<lambda>i. (y ! i - np_mean y) * (y ! (i + k) - np_mean y)) [0..<length y - k]"
  proof (rule map_cong [OF refl])
    fix i assume "i \<in> set [0..<length y - k]"
    then have "i < length y" "i + k < length y" by auto
    then show "(?z ! i - np_mean ?z) * (?z ! (i + k) - np_mean ?z)
             = (y ! i - np_mean y) * (y ! (i + k) - np_mean y)"
      by (simp add: m)
  qed
  show ?thesis
    unfolding C_unfold [of k ?z] C_unfold [of k y] length_map eq by (rule refl)
qed

lemma timescale_loop_shift:
  "timescale_loop dtau (map (\<lambda>v. v + c) y) ks T = timescale_loop dtau y ks T"
  by (induction ks arbitrary: T) (simp_all add: C_shift split: sum.splits)

lemma timescale_loop_scale:
  "timescale_loop (lam * dtau) y ks (lam * T) = map_sum id ((*) lam) (timescale_loop dtau y ks T)"
proof (induction ks arbitrary: T)
  case Nil
  then show ?case by simp
next
  case (Cons k ks)
  have "lam * T + lam * dtau / 2 * (c1 + c0) = lam * (T + dtau / 2 * (c1 + c0))" for c1 c0
    by (simp add: algebra_simps)
  with Cons show ?case
    by (simp split: sum.splits)
qed

lemma C_zero_nonconstant:
  assumes "i < length y" "j < length y" "y ! i \<noteq> y ! j"
  shows "\<exists>v. C 0 y = Inr v \<and> v \<noteq> 0"
proof -
  have len: "2 \<le> length y"
  proof (rule ccontr)
    assume "\<not> 2 \<le> length y"
    then have "i = 0" "j = 0" using assms(1,2) by auto
    with assms(3) show False by simp
  qed
  let ?S = "\<Sum>v\<leftarrow>y. (v - np_mean y)\<^sup>2"
  have "?S \<noteq> 0"
  proof
    assume "?S = 0"
    moreover have "\<forall>x\<in>set (map (\<lambda>v. (v - np_mean y)\<^sup>2) y). 0 \<le> x" by auto
    ultimately have "\<forall>x\<in>set (map (\<lambda>v. (v - np_mean y)\<^sup>2) y). x = 0"
      using sum_list_nonneg_eq_0_iff by blast
    then have all: "\<forall>v\<in>set y. v = np_mean y" by auto
    have "y ! i = np_mean y" "y ! j = np_mean y"
      using all assms(1,2) by auto
    with assms(3) show False by simp
  qed
  moreover have "real (length y) - 1 \<noteq> 0" using len by auto
  ultimately have "?S / (real (length y) - 1) \<noteq> 0" by simp
  then show ?thesis
    using C_zero_sum_squares [OF len] by blast
qed


lemma timescale_scale:
  "integral_timescale_discrete (lam * dtau) y m
     = map_sum id ((*) lam) (integral_timescale_discrete dtau y m)"
proof -
  have "timescale_loop (lam * dtau) y [0..<m - 1] (lam * 0)
      = map_sum id ((*) lam) (timescale_loop dtau y [0..<m - 1] 0)"
    by (rule timescale_loop_scale)
  then show ?thesis
    by (simp add: integral_timescale_discrete_def split: sum.splits)
qed

lemma timescale_shift:
  "integral_timescale_discrete dtau (map (\<lambda>v. v + c) y) m = integral_timescale_discrete dtau y m"
  unfolding integral_timescale_discrete_def timescale_loop_shift C_shift map_is_Nil_conv
  by (rule refl)

lemma timescale_finite:
  assumes "C 0 y = Inr v" "v \<noteq> 0"
  shows "integral_timescale_discrete dtau y m \<noteq> Inl NonFinite"
proof -
  have "timescale_loop dtau y ks T \<noteq> Inl NonFinite" for ks T
    by (induction ks arbitrary: T) (auto simp: C_unfold split: sum.splits if_splits)
  then show ?thesis
    using assms by (auto simp: integral_timescale_discrete_def split: sum.splits)
qed

text \<open>
  C8. For a series that is not constant, \<open>m \<ge> 2\<close>, and positive \<open>dtau\<close> and \<open>lam\<close>:
  adding a constant \<open>c\<close> to every value leaves \<open>integral_timescale_discrete\<close> as it
  is, and multiplying \<open>dtau\<close> by \<open>lam\<close> multiplies it by \<open>lam\<close> (a fault stays the
  same fault). \<open>C(0, y)\<close> is then not zero, so the result is never \<open>inf\<close> or \<open>nan\<close>.
\<close>

theorem integral_timescale_shift_and_scale:
  assumes "u \<in> set y" "v \<in> set y" "u \<noteq> v" and "2 \<le> m" and "0 < dtau" and "0 < lam"
  shows "integral_timescale_discrete dtau (map (\<lambda>w. w + c) y) m
           = integral_timescale_discrete dtau y m
       \<and> integral_timescale_discrete (lam * dtau) y m
           = map_sum id (\<lambda>T. lam * T) (integral_timescale_discrete dtau y m)
       \<and> integral_timescale_discrete dtau y m \<noteq> Inl NonFinite"
proof -
  obtain i j where "i < length y" "j < length y" "y ! i \<noteq> y ! j"
    using assms(1-3) by (metis in_set_conv_nth)
  then obtain c0 where "C 0 y = Inr c0" "c0 \<noteq> 0"
    using C_zero_nonconstant by blast
  then have "integral_timescale_discrete dtau y m \<noteq> Inl NonFinite"
    by (rule timescale_finite)
  then show ?thesis
    using timescale_shift [of dtau c y m] timescale_scale [of lam dtau y m] by simp
qed

theorem integral_timescale_shift_and_scale_witness:
  "(-1 :: real) \<in> set [-1, 0, 1] \<and> (1 :: real) \<in> set [-1, 0, 1] \<and> (-1 :: real) \<noteq> 1
   \<and> (2 :: nat) \<le> 2 \<and> (0 :: real) < 1 \<and> (0 :: real) < 3
   \<and> integral_timescale_discrete 1 (map (\<lambda>w. w + 5) [-1, 0, 1]) 2 = Inr 1
   \<and> integral_timescale_discrete 1 [-1, 0, 1] 2 = Inr 1
   \<and> integral_timescale_discrete (3 * 1) [-1, 0, 1] 2 = Inr 3"
  using integral_timescale_shift_and_scale [of "-1" "[-1, 0, 1]" 1 2 1 3 5]
  by (simp add: integral_timescale_discrete_def C_def np_mean_def)

section \<open>The analytic confidence limit in \<open>main_te\<close>\<close>

lemma conf_limit_value:
  assumes "conf_limit ppf s_eta N_star s_x = Inr ci"
  shows "ci = s_eta * ppf 0.975 (N_star - 2) / (sqrt (N_star - 1) * s_x)"
  using assms by (simp add: conf_limit_def Let_def split: if_splits)

text \<open>
  Whenever a station of \<open>main_te\<close> yields a row, with \<open>ESS\<close> the effective sample
  size \<open>N dt / T\<close> of its series: the argument of \<open>conf_limit\<close> is \<open>ESS - 2\<close>, so the
  quantile is taken at \<open>ESS - 4\<close> degrees of freedom and the root is of \<open>ESS - 3\<close>.
\<close>

lemma main_te_station_conf_limit:
  assumes "main_te_station ppf delta_tau_factor nlag xx yy y_est = Inr row"
  shows "\<exists>it ESS SEE SDX.
           integral_timescale_discrete (delta_tau_factor * (xx ! 1 - xx ! 0)) yy nlag = Inr it
         \<and> effective_sample_size (length yy) (xx ! 1 - xx ! 0) it = Inr ESS
         \<and> standard_error_of_estimate yy y_est = Inr SEE
         \<and> std_dev_x xx = Inr SDX
         \<and> effective_dof row = ESS - 2
         \<and> ci_effective row = SEE * ppf 0.975 (ESS - 4) / (sqrt (ESS - 3) * SDX)"
  using assms
  by (auto simp: main_te_station_def Let_def dest!: conf_limit_value split: if_splits sum.splits)

lemma timescale_example:
  "integral_timescale_discrete 1 [1, 0, -1, 0, 0, -1, 0, 1] 2 = Inr 1"
  by (simp add: integral_timescale_discrete_def C_def np_mean_def)

lemma standard_error_example:
  "standard_error_of_estimate [1, 0, -1, 0, 0, -1, 0, 1] [0, 0, 0, 0, 0, 0, 0, 0]
     = Inr (sqrt (2 / 3))"
  by (simp add: standard_error_of_estimate_def)

lemma std_dev_x_example:
  "std_dev_x [0, 1, 2, 3, 4, 5, 6, 7] = Inr (sqrt 6)"
  by (simp add: std_dev_x_def np_mean_def power2_eq_square)

text \<open>
  C1, on the code. The series of eight yearly values \<open>1, 0, -1, 0, 0, -1, 0, 1\<close> at the
  times \<open>0, ..., 7\<close> has the least-squares line zero, integral timescale 1 (two lags)
  and so the effective sample size \<open>N* = 8\<close>. The claim's limit is
  \<open>s_eta * t(0.975, 8 - 2) / (sqrt (8 - 1) * s_x)\<close>. The station computes
  \<open>s_eta * t(0.975, 8 - 4) / (sqrt (8 - 3) * s_x)\<close>, with \<open>s_eta = sqrt (2/3)\<close> and
  \<open>s_x = sqrt 6\<close>: \<open>main_te\<close> hands \<open>conf_limit\<close> the sample size less 2, and
  \<open>conf_limit\<close> takes 2 and 1 from that.
\<close>

theorem main_te_station_takes_two_twice:
  "main_te_station ppf 1 2 [0, 1, 2, 3, 4, 5, 6, 7] [1, 0, -1, 0, 0, -1, 0, 1]
       [0, 0, 0, 0, 0, 0, 0, 0]
     = Inr (Te_row 8 6 (8 - 2) (sqrt (2 / 3) * ppf 0.975 (8 - 4) / (sqrt (8 - 3) * sqrt 6)))"
  by (simp add: main_te_station_def timescale_example standard_error_example std_dev_x_example
      effective_sample_size_def conf_limit_def)

section \<open>Properties of the from-scratch Theil-Sen estimator\<close>

lemma np_median_constant:
  assumes "xs \<noteq> []" and "\<And>v. v \<in> set xs \<Longrightarrow> v = a"
  shows "np_median xs = Some a"
proof -
  let ?s = "sort xs" and ?n = "length xs"
  have n: "0 < ?n" using assms(1) by simp
  have nth: "?s ! i = a" if "i < ?n" for i
  proof -
    have "?s ! i \<in> set ?s" by (rule nth_mem) (simp add: that)
    then show ?thesis using assms(2) by simp
  qed
  show ?thesis
  proof (cases "odd ?n")
    case True
    have "?n div 2 < ?n" using n by simp
    then show ?thesis using True n nth by (simp add: np_median_def Let_def)
  next
    case False
    have "?n div 2 < ?n" "?n div 2 - 1 < ?n" using n by arith+
    then have "?s ! (?n div 2) = a" "?s ! (?n div 2 - 1) = a" using nth by blast+
    then show ?thesis using False n by (simp add: np_median_def Let_def)
  qed
qed

lemma set_map_filter: "set (List.map_filter f xs) = {y. \<exists>x \<in> set xs. f x = Some y}"
  by (induction xs) (auto split: option.splits)

lemma set_finite_entries:
  "set (finite_entries CC) = {v. \<exists>row \<in> set CC. Some v \<in> set row}"
  by (auto simp: finite_entries_def set_map_filter)

lemma set_finite_entries_CC_matrix:
  "set (finite_entries (CC_matrix data))
     = {v. \<exists>i < length data. \<exists>j < length data. CC_entry data i j = Some v}"
proof -
  have "(\<exists>row \<in> set (CC_matrix data). Some v \<in> set row)
      \<longleftrightarrow> (\<exists>i < length data. \<exists>j < length data. CC_entry data i j = Some v)" for v
  proof
    assume "\<exists>row \<in> set (CC_matrix data). Some v \<in> set row"
    then obtain i where i: "i < length data"
      and "Some v \<in> set (map (\<lambda>j. CC_entry data i j) [0..<length data])"
      unfolding CC_matrix_def by auto
    then obtain j where "j < length data" "CC_entry data i j = Some v"
      by auto
    with i show "\<exists>i < length data. \<exists>j < length data. CC_entry data i j = Some v"
      by blast
  next
    assume "\<exists>i < length data. \<exists>j < length data. CC_entry data i j = Some v"
    then obtain i j where ij: "i < length data" "j < length data" "CC_entry data i j = Some v"
      by blast
    then have "Some v \<in> set (map (\<lambda>j. CC_entry data i j) [0..<length data])"
      by force
    moreover have "map (\<lambda>j. CC_entry data i j) [0..<length data] \<in> set (CC_matrix data)"
      unfolding CC_matrix_def using ij(1) by (auto intro!: image_eqI [where x = i])
    ultimately show "\<exists>row \<in> set (CC_matrix data). Some v \<in> set row"
      by blast
  qed
  then show ?thesis
    unfolding set_finite_entries by simp
qed

lemma TheilSen_Cummins_width:
  assumes "snd (TheilSen_Cummins data) = Some fit"
  shows "2 \<le> length data \<and> length (hd data) = 2"
  using assms by (simp add: TheilSen_Cummins_def split: if_splits)

lemma TheilSen_Cummins_not_two_columns:
  assumes "2 \<le> length data" and "length (hd data) \<noteq> 2"
  shows "TheilSen_Cummins data = ([], None)"
  using assms by (simp add: TheilSen_Cummins_def)

text \<open>
  C10. A matrix of at least two rows whose rows do not have exactly two entries: the
  function prints nothing and returns \<open>None\<close>, and the callers' \<open>[0]\<close> on that raises
  \<open>TypeError\<close>. Whatever the matrix, a fit is returned only for two columns.
\<close>

theorem TheilSen_Cummins_other_widths_return_none:
  assumes "2 \<le> length data" and "length (hd data) \<noteq> 2"
  shows "TheilSen_Cummins data = ([], None)
       \<and> TheilSen_Cummins_slope data = Inl TypeError
       \<and> (\<forall>d fit. snd (TheilSen_Cummins d) = Some fit \<longrightarrow> length (hd d) = 2)"
proof -
  have ret: "TheilSen_Cummins data = ([], None)"
    using assms by (rule TheilSen_Cummins_not_two_columns)
  then have slope: "TheilSen_Cummins_slope data = Inl TypeError"
    by (simp add: TheilSen_Cummins_slope_def)
  have only: "\<forall>d fit. snd (TheilSen_Cummins d) = Some fit \<longrightarrow> length (hd d) = 2"
    using TheilSen_Cummins_width by blast
  from ret slope only show ?thesis
    by (simp only: simp_thms)
qed

theorem TheilSen_Cummins_other_widths_return_none_witness:
  "2 \<le> length [[1, 2, 3], [4, 5, 6 :: real]] \<and> length (hd [[1, 2, 3], [4, 5, 6 :: real]]) \<noteq> 2
   \<and> TheilSen_Cummins [[1, 2, 3], [4, 5, 6]] = ([], None)
   \<and> TheilSen_Cummins_slope [[1, 2, 3], [4, 5, 6]] = Inl TypeError
   \<and> snd (TheilSen_Cummins [[0, 0], [1, 1]]) = Some (Some 1, Some 0, [[None, Some 1], [None, None]])
   \<and> length (hd [[0, 0], [1, 1 :: real]]) = 2"
proof -
  have "snd (TheilSen_Cummins [[0, 0], [1, 1]])
      = Some (Some 1, Some 0, [[None, Some 1], [None, None]])"
    by (simp add: TheilSen_Cummins_def CC_matrix_def CC_entry_def finite_entries_def
        List.map_filter_def np_median_def Let_def)
  then show ?thesis
    using TheilSen_Cummins_other_widths_return_none [of "[[1, 2, 3], [4, 5, 6]]"]
    by simp
qed

lemma line_entries:
  assumes "i < length x"
  shows "map (\<lambda>t. [t, a * t + b]) x ! i ! 0 = x ! i"
    and "map (\<lambda>t. [t, a * t + b]) x ! i ! 1 = a * x ! i + b"
  using assms by simp_all

lemma CC_entry_line:
  assumes "i < length x" "j < length x"
    and "CC_entry (map (\<lambda>t. [t, a * t + b]) x) i j = Some v"
  shows "v = a"
proof -
  let ?d = "map (\<lambda>t. [t, a * t + b]) x"
  have ne: "x ! i - x ! j \<noteq> 0"
    using assms by (simp add: CC_entry_def split: if_splits)
  have "v = ((a * x ! i + b) - (a * x ! j + b)) / (x ! i - x ! j)"
    using assms by (simp add: CC_entry_def split: if_splits)
  also have "\<dots> = a * (x ! i - x ! j) / (x ! i - x ! j)"
    by (simp add: algebra_simps)
  also have "\<dots> = a"
    using ne by simp
  finally show ?thesis .
qed

lemma CC_entry_line_first:
  assumes "sorted_wrt (<) x" and "2 \<le> length x"
  shows "CC_entry (map (\<lambda>t. [t, a * t + b]) x) 0 1 \<noteq> None"
proof -
  have l: "0 < length x" "1 < length x"
    using assms(2) by auto
  have "x ! 0 < x ! 1"
    using assms(1) l by (simp add: sorted_wrt_iff_nth_less)
  then show ?thesis
    using l by (simp add: CC_entry_def)
qed

lemma finite_entries_line:
  assumes "sorted_wrt (<) x" and "2 \<le> length x"
  shows "finite_entries (CC_matrix (map (\<lambda>t. [t, a * t + b]) x)) \<noteq> []"
    and "v \<in> set (finite_entries (CC_matrix (map (\<lambda>t. [t, a * t + b]) x))) \<Longrightarrow> v = a"
proof -
  let ?d = "map (\<lambda>t. [t, a * t + b]) x"
  obtain w where "CC_entry ?d 0 1 = Some w"
    using CC_entry_line_first [OF assms] by blast
  moreover have "0 < length ?d" "1 < length ?d"
    using assms(2) by auto
  ultimately have "w \<in> set (finite_entries (CC_matrix ?d))"
    unfolding set_finite_entries_CC_matrix by blast
  then show "finite_entries (CC_matrix ?d) \<noteq> []"
    by auto
  show "v = a" if "v \<in> set (finite_entries (CC_matrix ?d))"
  proof -
    from that have "\<exists>i < length ?d. \<exists>j < length ?d. CC_entry ?d i j = Some v"
      by (simp only: set_finite_entries_CC_matrix mem_Collect_eq)
    then obtain i j where "i < length x" "j < length x" "CC_entry ?d i j = Some v"
      by (auto simp only: length_map)
    then show ?thesis by (rule CC_entry_line)
  qed
qed

lemma residuals_line:
  "map (\<lambda>row. row ! 1 - a * row ! 0) (map (\<lambda>t. [t, a * t + b]) x)
     = replicate (length x) (b :: real)"
  by (induction x) simp_all

lemma TheilSen_Cummins_line:
  assumes "sorted_wrt (<) x" and "2 \<le> length x"
  shows "TheilSen_Cummins (map (\<lambda>t. [t, a * t + b]) x)
           = ([], Some (Some a, Some b, CC_matrix (map (\<lambda>t. [t, a * t + b]) x)))"
proof -
  let ?d = "map (\<lambda>t. [t, a * t + b]) x"
  have x: "x \<noteq> []" using assms(2) by auto
  have len: "\<not> length ?d < 2" using assms(2) by simp
  have width: "length (hd ?d) = 2" using x by (simp add: hd_map)
  have m: "np_median (finite_entries (CC_matrix ?d)) = Some a"
    using finite_entries_line [OF assms] by (intro np_median_constant) auto
  have "np_median (replicate (length x) b) = Some b"
    using x by (intro np_median_constant) auto
  then have bb: "np_median (map (\<lambda>row. row ! 1 - a * row ! 0) ?d) = Some b"
    by (simp only: residuals_line)
  show ?thesis
    unfolding TheilSen_Cummins_def Let_def using len width m bb by simp
qed

text \<open>
  C9. For strictly increasing predictors \<open>x\<close>, at least two, and the points
  \<open>(x[i], a x[i] + b)\<close>: the estimator returns the slope \<open>a\<close> and the intercept \<open>b\<close>;
  the finite pairwise slopes are all \<open>a\<close> and the residuals \<open>y[i] - a x[i]\<close> all \<open>b\<close>.
\<close>

theorem TheilSen_Cummins_noiseless_line:
  assumes "sorted_wrt (<) x" and "2 \<le> length x"
  shows "TheilSen_Cummins (map (\<lambda>t. [t, a * t + b]) x)
           = ([], Some (Some a, Some b, CC_matrix (map (\<lambda>t. [t, a * t + b]) x)))
       \<and> set (finite_entries (CC_matrix (map (\<lambda>t. [t, a * t + b]) x))) = {a}
       \<and> map (\<lambda>row. row ! 1 - a * row ! 0) (map (\<lambda>t. [t, a * t + b]) x)
           = replicate (length x) b"
proof -
  let ?F = "finite_entries (CC_matrix (map (\<lambda>t. [t, a * t + b]) x))"
  have "?F \<noteq> []" and "\<And>v. v \<in> set ?F \<Longrightarrow> v = a"
    using finite_entries_line [OF assms] by blast+
  then have "set ?F = {a}"
    by (cases ?F) auto
  then show ?thesis
    using TheilSen_Cummins_line [OF assms] residuals_line by blast
qed

theorem TheilSen_Cummins_noiseless_line_witness:
  "sorted_wrt (<) [0, 1, 3 :: real] \<and> 2 \<le> length [0, 1, 3 :: real]
   \<and> TheilSen_Cummins [[0, 1], [1, 3], [3, 7]]
       = ([], Some (Some 2, Some 1,
            [[None, Some 2, Some 2], [None, None, Some 2], [None, None, None]]))"
proof -
  have "CC_matrix [[0, 1], [1, 3], [3, 7]]
      = [[None, Some 2, Some 2], [None, None, Some 2], [None, None, None]]"
    by (simp add: CC_matrix_def CC_entry_def upt_rec numeral_3_eq_3)
  then show ?thesis
    using TheilSen_Cummins_noiseless_line [of "[0, 1, 3]" 2 1]
    by simp
qed

section \<open>Properties of the spectral surrogates\<close>










section \<open>Properties of the Monte Carlo trend simulator\<close>

lemma trial_seed_too_large:
  assumes "2 ^ 32 \<le> 42 + nsim"
  shows "trial L nc sf maxlag time mag npts nsim st = (Raises ValueError, fst st)"
  using assms by (simp add: trial_def Let_def)

lemma trial_forgets_generator:
  assumes "\<not> 2 ^ 32 \<le> 42 + nsim"
  shows "trial L nc sf maxlag time mag npts nsim (g, a)
       = trial L nc sf maxlag time mag npts nsim (g', a)"
  using assms by (simp add: trial_def Let_def)

lemma trials_forget_generator:
  "fst (trials L nc sf maxlag time mag npts ns (g, a))
     = fst (trials L nc sf maxlag time mag npts ns (g', a))"
proof (induction ns arbitrary: g g' a)
  case Nil
  then show ?case by simp
next
  case (Cons nsim ns)
  show ?case
  proof (cases "(2 :: nat) ^ 32 \<le> 42 + nsim")
    case True
    then show ?thesis
      by (simp add: trial_seed_too_large)
  next
    case False
    have "trial L nc sf maxlag time mag npts nsim (g, a)
        = trial L nc sf maxlag time mag npts nsim (g', a)"
      using False by (rule trial_forgets_generator)
    then show ?thesis
      by (simp split: prod.splits outcome.splits)
  qed
qed

text \<open>
  C6. Whatever the state of the generator when \<open>monte_carlo_trend\<close> is called (what ran
  before), the same trial count, maximum lag, timestamps, residual and backend give
  the same outcome, and so the same array of simulated slopes: every trial first seeds
  the generator with \<open>42 + nsim\<close> and reads nothing of the state it found.
\<close>

theorem monte_carlo_trend_deterministic:
  "fst (monte_carlo_trend L g max_siml maxlag time data_record ncores_to_use sen_flag)
     = fst (monte_carlo_trend L g' max_siml maxlag time data_record ncores_to_use sen_flag)"
proof (cases "abs_fft data_record")
  case (Inl e)
  then show ?thesis
    by (simp add: monte_carlo_trend_def)
next
  case (Inr mag)
  let ?a = "Mc_arrays (replicate max_siml 0) (replicate max_siml (replicate (maxlag + 1) 0))
              (replicate (length data_record) 0)"
  have "fst (trials L ncores_to_use sen_flag maxlag time mag (length data_record) [0..<max_siml] (g, ?a))
      = fst (trials L ncores_to_use sen_flag maxlag time mag (length data_record) [0..<max_siml] (g', ?a))"
    by (rule trials_forget_generator)
  then show ?thesis
    using Inr by (auto simp: monte_carlo_trend_def Let_def split: prod.splits outcome.splits)
qed

text \<open>
  The branch \<open>sen_flag == 1\<close>: the first coefficient is stored whenever there is one,
  and the call returns nothing only for an empty coefficient vector.
\<close>

lemma trial_slope_library_Theil_Sen:
  assumes "TheilSenRegressor_coef L ncores time ts = Inr coef"
  shows "trial_slope L ncores 1 time ts = (if coef = [] then Returns_None else Returns (coef ! 0))"
  using assms by (simp add: trial_slope_def)






section \<open>Properties of the empirical percentile extractor\<close>

lemma station_conf_int_unfold:
  "station_conf_int max_siml siml_trends b =
     (temp_conf_int_95 (scan (station_N max_siml siml_trends) (station_edges max_siml siml_trends)
                          (num_bins max_siml) b),
      scan (station_N max_siml siml_trends) (station_edges max_siml siml_trends)
        (num_bins max_siml) b)"
  by (simp add: station_conf_int_def station_N_def station_edges_def station_count_def Let_def
      split: prod.splits)

lemma num_bins_pos: "0 < num_bins max_siml"
  by (simp add: num_bins_def)

lemma bin_index_less:
  assumes "first_edge < last_edge" "first_edge \<le> v" "v \<le> last_edge" "0 < nbins"
  shows "bin_index first_edge last_edge nbins v < nbins"
proof -
  let ?q = "(v - first_edge) / (last_edge - first_edge) * real nbins"
  have "(v - first_edge) / (last_edge - first_edge) \<le> 1"
    using assms by (simp add: field_simps)
  then have "?q \<le> 1 * real nbins"
    by (intro mult_right_mono) simp_all
  then have "\<lfloor>?q\<rfloor> \<le> int nbins"
    by (simp add: floor_le_iff)
  then have "nat \<lfloor>?q\<rfloor> \<le> nbins"
    by simp
  then show ?thesis
    using assms(4) by (auto simp: bin_index_def Let_def)
qed

lemma histogram_range_nonempty:
  assumes "a \<noteq> []"
  shows "histogram_range a =
           (if Min (set a) = Max (set a) then (Min (set a) - 0.5, Max (set a) + 0.5)
            else (Min (set a), Max (set a)))"
  using assms by (simp add: histogram_range_def Let_def)

lemma histogram_range_covers:
  assumes "histogram_range a = (first_edge, last_edge)"
  shows "first_edge < last_edge" and "v \<in> set a \<Longrightarrow> first_edge \<le> v \<and> v \<le> last_edge"
proof -
  define lo hi where "lo = Min (set a)" and "hi = Max (set a)"
  have range: "(first_edge, last_edge) = (if lo = hi then (lo - 0.5, hi + 0.5) else (lo, hi))"
    if "a \<noteq> []"
    using histogram_range_nonempty [OF that] assms unfolding lo_def hi_def by simp
  have le: "lo \<le> hi" if "a \<noteq> []"
    unfolding lo_def hi_def using that by (simp add: Min_le_iff)
  show "first_edge < last_edge"
  proof (cases "a = []")
    case True
    then show ?thesis using assms by (simp add: histogram_range_def)
  next
    case False
    show ?thesis
      using range [OF False] le [OF False] by (cases "lo = hi") auto
  qed
  show "first_edge \<le> v \<and> v \<le> last_edge" if "v \<in> set a"
  proof -
    have ne: "a \<noteq> []" using that by auto
    have "lo \<le> v" "v \<le> hi"
      unfolding lo_def hi_def using that by simp_all
    then show ?thesis
      using range [OF ne] by (cases "lo = hi") auto
  qed
qed

lemma sum_list_indicator:
  "(\<Sum>j\<leftarrow>[0..<n]. if k = j then 1 else 0) = (if k < n then 1 else (0 :: nat))"
  by (induction n) auto

lemma sum_list_bin_counts:
  assumes "\<And>v. v \<in> set a \<Longrightarrow> f v < n"
  shows "(\<Sum>j\<leftarrow>[0..<n]. length (filter (\<lambda>v. f v = j) a)) = length a"
  using assms
proof (induction a)
  case Nil
  then show ?case by simp
next
  case (Cons x a)
  have "(\<Sum>j\<leftarrow>[0..<n]. length (filter (\<lambda>v. f v = j) (x # a)))
      = (\<Sum>j\<leftarrow>[0..<n]. (if f x = j then 1 else 0) + length (filter (\<lambda>v. f v = j) a))"
    by (intro arg_cong [where f = sum_list] map_cong) auto
  also have "\<dots> = (\<Sum>j\<leftarrow>[0..<n]. if f x = j then 1 else 0)
                  + (\<Sum>j\<leftarrow>[0..<n]. length (filter (\<lambda>v. f v = j) a))"
    by (simp add: sum_list_addf)
  also have "\<dots> = 1 + length a"
    using Cons by (simp add: sum_list_indicator)
  finally show ?case by simp
qed

lemma np_histogram_counts:
  assumes "0 < nbins"
  shows "sum_list (fst (np_histogram a nbins)) = length a"
    and "length (fst (np_histogram a nbins)) = nbins"
proof -
  obtain first_edge last_edge where r: "histogram_range a = (first_edge, last_edge)"
    by (cases "histogram_range a")
  have "bin_index first_edge last_edge nbins v < nbins" if "v \<in> set a" for v
    using histogram_range_covers [OF r] that assms by (intro bin_index_less) auto
  then show "sum_list (fst (np_histogram a nbins)) = length a"
    by (simp add: np_histogram_def r sum_list_bin_counts)
  show "length (fst (np_histogram a nbins)) = nbins"
    by (simp add: np_histogram_def r)
qed

lemma sum_list_take_nth:
  assumes "k \<le> length xs"
  shows "(\<Sum>c\<leftarrow>take k xs. f c) = (\<Sum>j<k. f (xs ! j) :: real)"
  using assms
proof (induction k)
  case 0
  then show ?case by simp
next
  case (Suc k)
  then have "take (Suc k) xs = take k xs @ [xs ! k]"
    by (simp add: take_Suc_conv_app_nth)
  with Suc show ?case by simp
qed

text \<open>The running fraction below bin \<open>k\<close>.\<close>

lemma cdf_N_nth:
  assumes "0 < sum_list count" and "k < nbins" and "length count = nbins"
  shows "cdf_N count nbins ! k = Some (\<Sum>j<k. real (count ! j) / real (sum_list count))"
proof -
  have ne: "\<not> (sum_list count = 0 \<and> 0 < k)"
    using assms(1) by linarith
  have "cdf_N count nbins ! k
      = (\<lambda>k. if sum_list count = 0 \<and> 0 < k then None
              else Some (\<Sum>c\<leftarrow>take k count. real c / real (sum_list count))) ([0..<nbins] ! k)"
    unfolding cdf_N_def Let_def by (rule nth_map) (simp add: assms(2))
  also have "[0..<nbins] ! k = k"
    using assms(2) by simp
  finally have "cdf_N count nbins ! k
      = Some (\<Sum>c\<leftarrow>take k count. real c / real (sum_list count))"
    using ne by (simp only: if_False)
  moreover have "(\<Sum>c\<leftarrow>take k count. real c / real (sum_list count))
               = (\<Sum>j<k. real (count ! j) / real (sum_list count))"
    using assms(2,3) by (intro sum_list_take_nth) simp
  ultimately show ?thesis by simp
qed

lemma cdf_sum_mono:
  assumes "k \<le> k'"
  shows "(\<Sum>j<k. real (count ! j) / real M) \<le> (\<Sum>j<k'. real (count ! j) / real M)"
  using assms by (intro sum_mono2) auto

lemma straddles_low_last:
  assumes "0 < sum_list count" and "length count = nbins"
    and "straddles_low (cdf_N count nbins) n" and "n < n'" and "n' < nbins"
  shows "\<not> straddles_low (cdf_N count nbins) n'"
proof -
  let ?S = "\<lambda>k. \<Sum>j<k. real (count ! j) / real (sum_list count)"
  have n1: "n + 1 < nbins" using assms(4,5) by simp
  have "cdf_N count nbins ! (n + 1) = Some (?S (n + 1))"
    using assms(1) n1 assms(2) by (rule cdf_N_nth)
  moreover have "cdf_N count nbins ! n = Some (?S n)"
    using assms(1) _ assms(2) by (rule cdf_N_nth) (use n1 in simp)
  ultimately have "alim_low \<le> ?S (n + 1)"
    using assms(3) by (simp add: straddles_low_def)
  also have "\<dots> \<le> ?S n'"
    using assms(4) by (intro cdf_sum_mono) simp
  finally have "\<not> ?S n' < alim_low" by simp
  moreover have "cdf_N count nbins ! n' = Some (?S n')"
    using assms(1,5,2) by (rule cdf_N_nth)
  ultimately show ?thesis
    by (auto simp: straddles_low_def split: option.splits)
qed

lemma straddles_high_last:
  assumes "0 < sum_list count" and "length count = nbins"
    and "straddles_high (cdf_N count nbins) n" and "n < n'" and "n' < nbins"
  shows "\<not> straddles_high (cdf_N count nbins) n'"
proof -
  let ?S = "\<lambda>k. \<Sum>j<k. real (count ! j) / real (sum_list count)"
  have n1: "n + 1 < nbins" using assms(4,5) by simp
  have "cdf_N count nbins ! (n + 1) = Some (?S (n + 1))"
    using assms(1) n1 assms(2) by (rule cdf_N_nth)
  moreover have "cdf_N count nbins ! n = Some (?S n)"
    using assms(1) _ assms(2) by (rule cdf_N_nth) (use n1 in simp)
  ultimately have "alim_high < ?S (n + 1)"
    using assms(3) by (simp add: straddles_high_def)
  also have "\<dots> \<le> ?S n'"
    using assms(4) by (intro cdf_sum_mono) simp
  finally have "\<not> ?S n' \<le> alim_high" by simp
  moreover have "cdf_N count nbins ! n' = Some (?S n')"
    using assms(1,5,2) by (rule cdf_N_nth)
  ultimately show ?thesis
    by (auto simp: straddles_high_def split: option.splits)
qed

text \<open>The scan: a bound keeps its binding over bins that do not straddle its level.\<close>

lemma fst_scan_step:
  "fst (scan_step N e n b)
     = (if straddles_low N n then Some (0.5 * (e ! n + e ! (n + 1))) else fst b)"
  by (simp add: scan_step_def Let_def)

lemma snd_scan_step:
  "snd (scan_step N e n b)
     = (if straddles_high N n then Some (0.5 * (e ! n + e ! (n + 1))) else snd b)"
  by (simp add: scan_step_def Let_def)

lemma fold_scan_step_low_unchanged:
  assumes "\<And>n. n \<in> set ns \<Longrightarrow> \<not> straddles_low N n"
  shows "fst (fold (scan_step N e) ns b) = fst b"
  using assms by (induction ns arbitrary: b) (simp_all add: fst_scan_step snd_scan_step)

lemma fold_scan_step_high_unchanged:
  assumes "\<And>n. n \<in> set ns \<Longrightarrow> \<not> straddles_high N n"
  shows "snd (fold (scan_step N e) ns b) = snd b"
  using assms by (induction ns arbitrary: b) (simp_all add: fst_scan_step snd_scan_step)

lemma upt_split:
  assumes "n < m"
  shows "[0..<m] = [0..<n] @ n # [Suc n..<m]"
proof -
  have "[0..<n + (m - n)] = [0..<n] @ [n..<n + (m - n)]"
    by (rule upt_add_eq_append) simp
  moreover have "n + (m - n) = m"
    using assms by simp
  moreover have "[n..<m] = n # [Suc n..<m]"
    using assms by (rule upt_conv_Cons)
  ultimately show ?thesis by simp
qed

lemma scan_low_at:
  assumes "n < nbins - 1" and "straddles_low N n"
    and "\<And>n'. n < n' \<Longrightarrow> n' < nbins - 1 \<Longrightarrow> \<not> straddles_low N n'"
  shows "fst (scan N e nbins b) = Some (0.5 * (e ! n + e ! (n + 1)))"
proof -
  have "[0..<nbins - 1] = [0..<n] @ n # [Suc n..<nbins - 1]"
    using assms(1) by (rule upt_split)
  then have "fst (scan N e nbins b)
      = fst (fold (scan_step N e) [Suc n..<nbins - 1]
               (scan_step N e n (fold (scan_step N e) [0..<n] b)))"
    unfolding scan_def by simp
  also have "\<dots> = fst (scan_step N e n (fold (scan_step N e) [0..<n] b))"
    using assms(3) by (intro fold_scan_step_low_unchanged) auto
  also have "\<dots> = Some (0.5 * (e ! n + e ! (n + 1)))"
    using assms(2) by (simp add: fst_scan_step snd_scan_step)
  finally show ?thesis .
qed

lemma scan_high_at:
  assumes "n < nbins - 1" and "straddles_high N n"
    and "\<And>n'. n < n' \<Longrightarrow> n' < nbins - 1 \<Longrightarrow> \<not> straddles_high N n'"
  shows "snd (scan N e nbins b) = Some (0.5 * (e ! n + e ! (n + 1)))"
proof -
  have "[0..<nbins - 1] = [0..<n] @ n # [Suc n..<nbins - 1]"
    using assms(1) by (rule upt_split)
  then have "snd (scan N e nbins b)
      = snd (fold (scan_step N e) [Suc n..<nbins - 1]
               (scan_step N e n (fold (scan_step N e) [0..<n] b)))"
    unfolding scan_def by simp
  also have "\<dots> = snd (scan_step N e n (fold (scan_step N e) [0..<n] b))"
    using assms(3) by (intro fold_scan_step_high_unchanged) auto
  also have "\<dots> = Some (0.5 * (e ! n + e ! (n + 1)))"
    using assms(2) by (simp add: fst_scan_step snd_scan_step)
  finally show ?thesis .
qed





lemma upt_5: "[0..<5] = [0, 1, 2, 3, 4]"
  by (simp add: upt_rec)

lemma upt_4: "[0..<4] = [0, 1, 2, 3]"
  by (simp add: upt_rec)

lemma upt_6: "[0..<6] = [0, 1, 2, 3, 4, 5]"
  by (simp add: upt_rec)






lemma station_count_facts:
  "sum_list (station_count max_siml siml_trends) = length siml_trends"
  "length (station_count max_siml siml_trends) = num_bins max_siml"
  unfolding station_count_def by (rule np_histogram_counts [OF num_bins_pos])+

lemma station_N_nth:
  assumes "siml_trends \<noteq> []" and "k < num_bins max_siml"
  shows "station_N max_siml siml_trends ! k
       = Some (\<Sum>j<k. real (station_count max_siml siml_trends ! j) / real (length siml_trends))"
proof -
  have "0 < sum_list (station_count max_siml siml_trends)"
    using assms(1) by (simp add: station_count_facts)
  then have "cdf_N (station_count max_siml siml_trends) (num_bins max_siml) ! k
      = Some (\<Sum>j<k. real (station_count max_siml siml_trends ! j)
                       / real (sum_list (station_count max_siml siml_trends)))"
    using assms(2) station_count_facts(2) by (rule cdf_N_nth)
  then show ?thesis
    by (simp add: station_N_def station_count_facts)
qed

lemma station_low_bound:
  assumes "siml_trends \<noteq> []" and "n < num_bins max_siml - 1"
    and "straddles_low (station_N max_siml siml_trends) n"
  shows "fst (snd (station_conf_int max_siml siml_trends b))
       = Some (0.5 * (station_edges max_siml siml_trends ! n
                      + station_edges max_siml siml_trends ! (n + 1)))"
proof -
  have pos: "0 < sum_list (station_count max_siml siml_trends)"
    using assms(1) by (simp add: station_count_facts)
  have "\<not> straddles_low (station_N max_siml siml_trends) n'"
    if "n < n'" "n' < num_bins max_siml - 1" for n'
    unfolding station_N_def
    using pos station_count_facts(2) assms(3) [unfolded station_N_def] that(1)
    by (rule straddles_low_last) (use that(2) in simp)
  then have "fst (scan (station_N max_siml siml_trends) (station_edges max_siml siml_trends)
                    (num_bins max_siml) b)
      = Some (0.5 * (station_edges max_siml siml_trends ! n
                     + station_edges max_siml siml_trends ! (n + 1)))"
    using assms(2,3) by (intro scan_low_at) auto
  then show ?thesis
    by (simp add: station_conf_int_unfold)
qed

lemma station_high_bound:
  assumes "siml_trends \<noteq> []" and "n < num_bins max_siml - 1"
    and "straddles_high (station_N max_siml siml_trends) n"
  shows "snd (snd (station_conf_int max_siml siml_trends b))
       = Some (0.5 * (station_edges max_siml siml_trends ! n
                      + station_edges max_siml siml_trends ! (n + 1)))"
proof -
  have pos: "0 < sum_list (station_count max_siml siml_trends)"
    using assms(1) by (simp add: station_count_facts)
  have "\<not> straddles_high (station_N max_siml siml_trends) n'"
    if "n < n'" "n' < num_bins max_siml - 1" for n'
    unfolding station_N_def
    using pos station_count_facts(2) assms(3) [unfolded station_N_def] that(1)
    by (rule straddles_high_last) (use that(2) in simp)
  then have "snd (scan (station_N max_siml siml_trends) (station_edges max_siml siml_trends)
                    (num_bins max_siml) b)
      = Some (0.5 * (station_edges max_siml siml_trends ! n
                     + station_edges max_siml siml_trends ! (n + 1)))"
    using assms(2,3) by (intro scan_high_at) auto
  then show ?thesis
    by (simp add: station_conf_int_unfold)
qed

lemma station_half_width:
  assumes "snd (station_conf_int max_siml siml_trends b) = (Some low, Some high)"
  shows "fst (station_conf_int max_siml siml_trends b) = Inr ((high - low) / 2)"
  using assms by (simp add: station_conf_int_unfold temp_conf_int_95_def)

text \<open>
  C4. For a non-empty array of \<open>M\<close> simulated slopes: \<open>N[k]\<close> is the sum over \<open>j < k\<close> of
  \<open>count[j] / M\<close>; if the pair \<open>(n, n + 1)\<close> straddles a level, the bound of that level
  after the scan is the midpoint \<open>0.5 * (edge[n] + edge[n + 1])\<close>, whatever the variable
  held before; and with both bounds bound the half-width is half of upper minus lower.
\<close>

theorem percentile_extractor_values:
  assumes "siml_trends \<noteq> []"
  shows "(\<forall>k < num_bins max_siml.
            station_N max_siml siml_trends ! k
              = Some (\<Sum>j<k. real (station_count max_siml siml_trends ! j)
                               / real (length siml_trends)))
       \<and> (\<forall>n < num_bins max_siml - 1.
            straddles_low (station_N max_siml siml_trends) n \<longrightarrow>
            fst (snd (station_conf_int max_siml siml_trends b))
              = Some (0.5 * (station_edges max_siml siml_trends ! n
                             + station_edges max_siml siml_trends ! (n + 1))))
       \<and> (\<forall>n < num_bins max_siml - 1.
            straddles_high (station_N max_siml siml_trends) n \<longrightarrow>
            snd (snd (station_conf_int max_siml siml_trends b))
              = Some (0.5 * (station_edges max_siml siml_trends ! n
                             + station_edges max_siml siml_trends ! (n + 1))))
       \<and> (\<forall>low high.
            snd (station_conf_int max_siml siml_trends b) = (Some low, Some high) \<longrightarrow>
            fst (station_conf_int max_siml siml_trends b) = Inr ((high - low) / 2))"
  using station_N_nth [OF assms] station_low_bound [OF assms] station_high_bound [OF assms]
    station_half_width
  by blast

lemma spread_sample_range: "histogram_range spread_sample = (0, 1)"
proof -
  have "set spread_sample = {0, 3 / 10, 7 / 10, 1}"
    by (auto simp: spread_sample_def)
  then have "Min (set spread_sample) = 0" "Max (set spread_sample) = 1"
    by simp_all
  moreover have "spread_sample \<noteq> []"
    by (simp add: spread_sample_def)
  ultimately show ?thesis
    by (simp add: histogram_range_def)
qed

lemma spread_sample_bins:
  "bin_index 0 1 5 0 = 0" "bin_index 0 1 5 (3 / 10) = 1" "bin_index 0 1 5 (7 / 10) = 3"
  "bin_index 0 1 5 1 = 4"
  by (simp_all add: bin_index_def Let_def)

lemma histogram_spread_sample:
  "np_histogram spread_sample 5 = ([1, 20, 0, 19, 1], [0, 1 / 5, 2 / 5, 3 / 5, 4 / 5, 1])"
  unfolding np_histogram_def spread_sample_range prod.case Let_def
  by (simp add: spread_sample_def spread_sample_bins linspace_def upt_5 upt_6)

lemma N_spread_sample:
  "station_N 41 spread_sample = [Some 0, Some (1 / 41), Some (21 / 41), Some (21 / 41), Some (40 / 41)]"
  by (simp add: station_N_def station_count_def num_bins_def histogram_spread_sample cdf_N_def
      upt_5 Let_def)

lemma station_spread_sample:
  "station_conf_int 41 spread_sample (None, None) = (Inr (1 / 5), Some (3 / 10), Some (7 / 10))"
  unfolding station_conf_int_unfold N_spread_sample
  by (simp add: station_edges_def num_bins_def histogram_spread_sample scan_def upt_4
      scan_step_def straddles_low_def straddles_high_def alim_low_def alim_high_def
      temp_conf_int_95_def Let_def)


theorem percentile_extractor_values_witness:
  "spread_sample \<noteq> []
   \<and> (2 :: nat) < num_bins 41
   \<and> station_count 41 spread_sample = [1, 20, 0, 19, 1]
   \<and> station_N 41 spread_sample ! 2 = Some ((1 + 20) / 41)
   \<and> station_edges 41 spread_sample = [0, 1 / 5, 2 / 5, 3 / 5, 4 / 5, 1]
   \<and> (1 :: nat) < num_bins 41 - 1 \<and> straddles_low (station_N 41 spread_sample) 1
   \<and> (3 :: nat) < num_bins 41 - 1 \<and> straddles_high (station_N 41 spread_sample) 3
   \<and> station_conf_int 41 spread_sample (None, None) = (Inr (1 / 5), Some (3 / 10), Some (7 / 10))"
proof -
  have "spread_sample \<noteq> []"
    by (simp add: spread_sample_def)
  moreover have "station_count 41 spread_sample = [1, 20, 0, 19, 1]"
    and "station_edges 41 spread_sample = [0, 1 / 5, 2 / 5, 3 / 5, 4 / 5, 1]"
    by (simp_all add: station_count_def station_edges_def histogram_spread_sample num_bins_def)
  moreover have "straddles_low (station_N 41 spread_sample) 1"
    and "straddles_high (station_N 41 spread_sample) 3"
    unfolding N_spread_sample
    by (simp_all add: straddles_low_def straddles_high_def alim_low_def alim_high_def
        numeral_3_eq_3)
  ultimately show ?thesis
    using percentile_extractor_values [of spread_sample 41 "(None, None)"]
    by (simp add: N_spread_sample station_spread_sample num_bins_def)
qed
















end
